theory Spec2Isabelle
  imports Main
begin

section \<open>Strings of the program\<close>

text \<open>
  A JavaScript string is a sequence of UTF-16 code units. The documents and suggestions of
  the engine's world are of type \<^typ>\<open>string\<close>, one \<^typ>\<open>char\<close> for each code unit in the
  range U+0000..U+00FF. That range is closed under \<open>toLowerCase\<close>, and \<open>length\<close> counts what
  the source's \<open>.length\<close> counts. The case policy itself is defined further down for strings
  over any type of code unit, with the platform's \<open>toLowerCase\<close> as a parameter.
\<close>

definition code_unit :: "char \<Rightarrow> nat" where
  "code_unit c = of_char c"

text \<open>\<open>String.prototype.toLowerCase\<close> on one code unit: A-Z, and U+00C0..U+00DE except the
  multiplication sign U+00D7, move up by 32; every other unit of the range is unchanged.\<close>

definition lower_unit :: "char \<Rightarrow> char" where
  "lower_unit c =
     (let n = code_unit c
      in if (65 \<le> n \<and> n \<le> 90) \<or> (192 \<le> n \<and> n \<le> 222 \<and> n \<noteq> 215)
         then char_of (n + 32) else c)"

definition toLowerCase :: "string \<Rightarrow> string" where
  "toLowerCase s = map lower_unit s"

text \<open>White space of \<open>\s\<close> and \<open>trim\<close> within the range: TAB, LF, VT, FF, CR, space,
  NBSP. Line terminators (what \<open>.\<close> refuses and what \<open>^\<close> follows under the \<open>m\<close> flag):
  LF and CR.\<close>

definition is_space :: "char \<Rightarrow> bool" where
  "is_space c = (code_unit c \<in> {9, 10, 11, 12, 13, 32, 160})"

definition is_line_terminator :: "char \<Rightarrow> bool" where
  "is_line_terminator c = (code_unit c \<in> {10, 13})"

definition trim :: "string \<Rightarrow> string" where
  "trim s = rev (dropWhile is_space (rev (dropWhile is_space s)))"

text \<open>\<open>s.slice(a, b)\<close> for non-negative \<open>a\<close> and \<open>b\<close>: both ends are clamped to the
  length, and the result is empty when \<open>a \<ge> b\<close>.\<close>

definition slice :: "string \<Rightarrow> nat \<Rightarrow> nat \<Rightarrow> string" where
  "slice s a b = drop a (take b s)"

definition slice_from :: "'u list \<Rightarrow> nat \<Rightarrow> 'u list" where
  "slice_from s a = drop a s"

definition startsWith :: "string \<Rightarrow> string \<Rightarrow> bool" where
  "startsWith s p = (take (length p) s = p)"

definition endsWith :: "string \<Rightarrow> string \<Rightarrow> bool" where
  "endsWith s p = (length p \<le> length s \<and> drop (length s - length p) s = p)"

text \<open>\<open>s.indexOf(p, from)\<close>: the least index at or after \<open>from\<close> where \<open>p\<close> occurs,
  or \<open>-1\<close>. The search walks the suffixes of \<open>s\<close>, counting the index.\<close>

fun indexOf_at :: "string \<Rightarrow> string \<Rightarrow> nat \<Rightarrow> int" where
  "indexOf_at [] p i = (if p = [] then int i else -1)"
| "indexOf_at (c # cs) p i =
     (if startsWith (c # cs) p then int i else indexOf_at cs p (Suc i))"

definition indexOf :: "string \<Rightarrow> string \<Rightarrow> nat \<Rightarrow> int" where
  "indexOf s p from = (if from \<le> length s then indexOf_at (drop from s) p from else -1)"

text \<open>\<open>s.lastIndexOf(p)\<close>: the greatest index where \<open>p\<close> occurs, or \<open>-1\<close>.\<close>

fun lastIndexOf_at :: "string \<Rightarrow> string \<Rightarrow> nat \<Rightarrow> int" where
  "lastIndexOf_at [] p i = (if p = [] then int i else -1)"
| "lastIndexOf_at (c # cs) p i =
     (let later = lastIndexOf_at cs p (Suc i)
      in if later \<noteq> -1 then later
         else if startsWith (c # cs) p then int i else -1)"

definition lastIndexOf :: "string \<Rightarrow> string \<Rightarrow> int" where
  "lastIndexOf s p = lastIndexOf_at s p 0"

text \<open>\<open>s.split('\n')\<close>: always at least one piece.\<close>

fun split_lines :: "string \<Rightarrow> string list" where
  "split_lines [] = [[]]"
| "split_lines (c # cs) =
     (if c = CHR 0x0A then [] # split_lines cs
      else (case split_lines cs of
              [] \<Rightarrow> [[c]]
            | l # ls \<Rightarrow> (c # l) # ls))"

fun join :: "string \<Rightarrow> string list \<Rightarrow> string" where
  "join sep [] = []"
| "join sep [x] = x"
| "join sep (x # y # ys) = x @ sep @ join sep (y # ys)"

section \<open>Settings and shared types (types.ts)\<close>

datatype SuggestionMode = Auto | Questions | Structural | Critical | Connector

datatype SuggestionState = Idle | Queued | Predicting | Suggesting | Disabled

datatype SuggestionCase = CaseNone | CaseLower | CaseFirstLower

record ThoughtCompletionSettings =
  apiEndpoint :: string
  apiKey :: string
  mode :: SuggestionMode
  triggerDelay :: nat
  triggerOnPunctuation :: bool
  triggerOnNewline :: bool
  manualTriggerOnly :: bool
  contextChars :: nat
  includeHeadingTrail :: bool
  enabled :: bool
  suggestionCase :: SuggestionCase

text \<open>The editor view as far as the program reads it: the document text, the head of the
  main selection, and the value of the \<open>ghostTextState\<close> field (text and anchor position).\<close>

record EditorView =
  doc :: string
  sel_head :: nat
  ghost :: "(string \<times> nat) option"

record CompletionContext =
  prefix :: string
  suffix :: string
  headingTrail :: string
  cursorPosition :: nat

section \<open>Output post-processing (ai/provider.ts)\<close>

text \<open>\<open>transformCase\<close>: the empty string and the policy \<open>none\<close> return the text; \<open>lower\<close>
  lowercases all of it; \<open>firstLower\<close> lowercases the first unit when the text has one unit
  or the second unit is its own lowercase.

  \<open>String.prototype.toLowerCase\<close> belongs to the platform, not to the program. It is the
  parameter \<open>lower\<close>, any function from strings to strings over any type \<open>'u\<close> of code units:
  it may lengthen a string (U+0130 becomes two units) and may look at the neighbours of a
  unit (the final sigma). \<open>text[0]\<close> and \<open>text[1]\<close> are one-unit strings, so
  \<open>firstChar.toLowerCase()\<close> is \<open>lower [firstChar]\<close>.\<close>

definition transformCase :: "('u list \<Rightarrow> 'u list) \<Rightarrow> 'u list \<Rightarrow> SuggestionCase \<Rightarrow> 'u list" where
  "transformCase lower text caseType =
     (if text = [] \<or> caseType = CaseNone then text
      else if caseType = CaseLower then lower text
      else (case text of
              [] \<Rightarrow> text
            | firstChar # rest \<Rightarrow>
                (let secondChar = (case rest of [] \<Rightarrow> None | c # _ \<Rightarrow> Some c)
                 in if length text = 1 \<or>
                       (case secondChar of None \<Rightarrow> True | Some c \<Rightarrow> [c] = lower [c])
                    then lower [firstChar] @ slice_from text 1
                    else text)))"

text \<open>A second lowercasing, on code units given as numbers, with a unit that expands: A-Z
  and U+00C0..U+00DE except U+00D7 move up by 32, U+0130 becomes U+0069 U+0307, every other
  unit is unchanged.\<close>

definition lower_code_unit :: "nat \<Rightarrow> nat list" where
  "lower_code_unit n =
     (if (65 \<le> n \<and> n \<le> 90) \<or> (192 \<le> n \<and> n \<le> 222 \<and> n \<noteq> 215) then [n + 32]
      else if n = 304 then [105, 775]
      else [n])"

definition toLowerCase_units :: "nat list \<Rightarrow> nat list" where
  "toLowerCase_units s = concat (map lower_code_unit s)"

definition lead_ins :: "string list" where
  "lead_ins = [''Suggestion: '', ''Consider: '', ''Think about: '', ''Question: '', ''Try: '']"

fun strip_first_prefix :: "string list \<Rightarrow> string \<Rightarrow> string" where
  "strip_first_prefix [] cleaned = cleaned"
| "strip_first_prefix (p # ps) cleaned =
     (if startsWith cleaned p then slice_from cleaned (length p)
      else strip_first_prefix ps cleaned)"

text \<open>\<open>cleaned.slice(1, -1)\<close> drops the first and the last unit; on a string of one unit it
  is empty.\<close>

definition cleanSuggestion :: "string \<Rightarrow> string" where
  "cleanSuggestion suggestion =
     (let cleaned =
            (if (startsWith suggestion [CHR 0x22] \<and> endsWith suggestion [CHR 0x22]) \<or>
                (startsWith suggestion [CHR 0x27] \<and> endsWith suggestion [CHR 0x27])
             then slice suggestion 1 (length suggestion - 1)
             else suggestion)
      in trim (strip_first_prefix lead_ins cleaned))"

section \<open>Context window extractor (ai/context.ts)\<close>

definition LF :: string where
  "LF = [CHR 0x0A]"

text \<open>\<open>extractContext\<close>. The budget \<open>contextChars\<close> and the cursor offset are natural
  numbers: the settings slider ranges over 500..4000 and an offset is a position in the
  document.\<close>

text \<open>The heading pattern \<open>/^(#{1,6})\s+(.+)$/\<close> on one line. The hashes are the whole run
  of leading hashes (a shorter run is followed by a hash, which \<open>\s\<close> refuses), at most
  six. \<open>\s+\<close> is greedy and gives units back one at a time until the rest is non-empty and
  free of line terminators: \<open>heading_rest tail j\<close> tries \<open>j\<close> units of white space, then
  \<open>j - 1\<close>, down to one.\<close>

primrec heading_rest :: "string \<Rightarrow> nat \<Rightarrow> string option" where
  "heading_rest tail 0 = None"
| "heading_rest tail (Suc j) =
     (let r = drop (Suc j) tail
      in if r \<noteq> [] \<and> list_all (\<lambda>c. \<not> is_line_terminator c) r then Some r
         else heading_rest tail j)"

definition heading_match :: "string \<Rightarrow> (nat \<times> string) option" where
  "heading_match line =
     (let k = length (takeWhile (\<lambda>c. c = CHR ''#'') line)
      in if k = 0 \<or> 6 < k then None
         else (let tail = drop k line;
                   m = length (takeWhile is_space tail)
               in case heading_rest tail m of
                    None \<Rightarrow> None
                  | Some r \<Rightarrow> Some (k, r)))"

definition push_heading :: "(nat \<times> string) list \<Rightarrow> string \<Rightarrow> (nat \<times> string) list" where
  "push_heading headings line =
     (case heading_match line of
        None \<Rightarrow> headings
      | Some (level, t) \<Rightarrow>
          rev (dropWhile (\<lambda>h. level \<le> fst h) (rev headings)) @ [(level, trim t)])"

definition extractHeadingTrail :: "string \<Rightarrow> nat \<Rightarrow> string" where
  "extractHeadingTrail d cursor =
     (let textBefore = slice d 0 cursor;
          headings = foldl push_heading [] (split_lines textBefore)
      in if headings = [] then [] else join '' > '' (map snd headings))"

definition extractContext :: "EditorView \<Rightarrow> nat \<Rightarrow> bool \<Rightarrow> CompletionContext" where
  "extractContext v chars trail =
     (let cursor = sel_head v;
          d = doc v;
          prefixStart = nat (max 0 (int cursor - int chars));
          prefix0 = slice d prefixStart cursor;
          prefix1 =
            (if 0 < prefixStart
             then (let firstNewline = indexOf prefix0 LF 0
                   in if 0 < firstNewline \<and> firstNewline < 100
                      then slice_from prefix0 (nat (firstNewline + 1)) else prefix0)
             else prefix0);
          suffixEnd = min (length d) (cursor + chars div 3);
          suffix0 = slice d cursor suffixEnd;
          suffix1 =
            (if suffixEnd < length d
             then (let lastNewline = lastIndexOf suffix0 LF
                   in if 0 < lastNewline then slice suffix0 0 (nat lastNewline) else suffix0)
             else suffix0)
      in \<lparr>prefix = prefix1, suffix = suffix1,
          headingTrail = (if trail then extractHeadingTrail d cursor else []),
          cursorPosition = cursor\<rparr>)"

text \<open>\<open>isInCodeBlock\<close> counts the matches of \<open>/^```/gm\<close> before the cursor: a fence at the
  start of the text or right after a line terminator.\<close>

fun count_fences :: "bool \<Rightarrow> string \<Rightarrow> nat" where
  "count_fences at_start [] = 0"
| "count_fences at_start (c # cs) =
     (if at_start \<and> startsWith (c # cs) ''```'' then 1 else 0)
     + count_fences (is_line_terminator c) cs"

definition isInCodeBlock :: "string \<Rightarrow> nat \<Rightarrow> bool" where
  "isInCodeBlock d cursor = (count_fences True (slice d 0 cursor) mod 2 = 1)"

definition isInFrontmatter :: "string \<Rightarrow> nat \<Rightarrow> bool" where
  "isInFrontmatter d cursor =
     (if \<not> startsWith d (''---'' @ LF) then False
      else (let endOfFrontmatter = indexOf d (LF @ ''---'' @ LF) 4
            in if endOfFrontmatter = -1 then int cursor < indexOf d LF 4 + 100
               else int cursor \<le> endOfFrontmatter + 4))"

section \<open>Completion requester (ai/provider.ts)\<close>

text \<open>What the network gives back to one \<open>fetch\<close>: the promise rejects (a network failure,
  or \<open>AbortError\<close> once the signal is aborted); or a response that is not \<open>ok\<close>, whose text may
  fail to read; or an \<open>ok\<close> response with a body. Of the body only what
  \<open>data.choices?.[0]?.message?.content?.trim()\<close> looks at matters: it is not JSON; it is
  \<open>null\<close> (reading \<open>choices\<close> throws); the chain ends in \<open>undefined\<close>; the content is not a
  string (\<open>trim\<close> is not a function); or the content is a string.\<close>

datatype js_error = AbortError | NetworkError | SyntaxError | TypeError

datatype response_body = InvalidJson | JsonNull | NoContent | ContentNotString | Content string

datatype fetch_outcome = FetchRejected js_error | HttpNotOk bool | HttpOk response_body

text \<open>The \<open>try\<close> block of \<open>complete\<close>: \<open>Inl\<close> is an exception thrown inside it.\<close>

fun complete_try :: "ThoughtCompletionSettings \<Rightarrow> fetch_outcome \<Rightarrow> js_error + string option" where
  "complete_try st (FetchRejected e) = Inl e"
| "complete_try st (HttpNotOk text_read) = (if text_read then Inr None else Inl NetworkError)"
| "complete_try st (HttpOk InvalidJson) = Inl SyntaxError"
| "complete_try st (HttpOk JsonNull) = Inl TypeError"
| "complete_try st (HttpOk NoContent) = Inr None"
| "complete_try st (HttpOk ContentNotString) = Inl TypeError"
| "complete_try st (HttpOk (Content s)) =
     (let suggestion = trim s
      in if suggestion = [] then Inr None
         else Inr (Some (transformCase toLowerCase (cleanSuggestion suggestion)
                           (suggestionCase st))))"

text \<open>The \<open>catch\<close> block: both branches return \<open>null\<close>.\<close>

definition complete_catch :: "js_error \<Rightarrow> js_error + string option" where
  "complete_catch e = (if e = AbortError then Inr None else Inr None)"

definition complete_fetched :: "ThoughtCompletionSettings \<Rightarrow> fetch_outcome \<Rightarrow> js_error + string option" where
  "complete_fetched st outcome =
     (case complete_try st outcome of Inl e \<Rightarrow> complete_catch e | Inr r \<Rightarrow> Inr r)"

definition credentials_missing :: "ThoughtCompletionSettings \<Rightarrow> bool" where
  "credentials_missing st = (apiKey st = [] \<or> apiEndpoint st = [])"

text \<open>\<open>complete\<close> as a function of the settings and of what the network will answer: the
  value the promise settles with (\<open>Inl\<close>: rejected) and whether \<open>fetch\<close> was called.\<close>

definition complete :: "ThoughtCompletionSettings \<Rightarrow> fetch_outcome \<Rightarrow> (js_error + string option) \<times> bool" where
  "complete st outcome =
     (if credentials_missing st then (Inr None, False)
      else (complete_fetched st outcome, True))"

section \<open>The editor, the overlay field and the engine's world\<close>

text \<open>
  A transaction of the editor as the program reads it: the values of \<open>setSuggestionEffect\<close>
  it carries, whether it changes the document, whether it sets the selection, the document
  and the head of the selection after it, whether it is an \<open>input.type\<close> user event, and the
  texts it inserts.
\<close>

record Transaction =
  tr_effects :: "(string \<times> nat) option list"
  tr_docChanged :: bool
  tr_selection :: bool
  tr_doc :: string
  tr_head :: nat
  tr_inputType :: bool
  tr_inserted :: "string list"

text \<open>\<open>ghostTextState.update\<close> (editor/ghost-text.ts): the last effect wins; a document change
  clears; a selection whose head is not the anchor clears. The decoration is then built at
  the anchor. The anchor is the head at the time \<open>showSuggestion\<close> ran and every document
  change has cleared the suggestion before, so the position is valid and the \<open>catch\<close> around
  the decoration is not entered.\<close>

definition ghostTextState_update :: "(string \<times> nat) option \<Rightarrow> Transaction \<Rightarrow> (string \<times> nat) option" where
  "ghostTextState_update g tr =
     (let s1 = foldl (\<lambda>s e. e) g (tr_effects tr);
          s2 = (if tr_docChanged tr then None else s1)
      in case s2 of
           None \<Rightarrow> None
         | Some (t, position) \<Rightarrow>
             (if tr_selection tr \<and> tr_head tr \<noteq> position then None else s2))"

text \<open>A suspended call of \<open>predict\<close>, waiting at \<open>await this.aiProvider.complete(context)\<close>:
  the context it captured, whether \<open>complete\<close> called \<open>fetch\<close> (it returns \<open>null\<close> before that
  when the credentials are missing), and whether the signal given to \<open>fetch\<close> was aborted.\<close>

record request =
  req_id :: nat
  req_context :: CompletionContext
  req_fetched :: bool
  req_aborted :: bool

datatype timer_kind = QueueTimer | IdleTimer

text \<open>
  The world: the shared settings object; the editor view; the fields of
  \<open>SuggestionStateMachine\<close> (\<open>state\<close>, \<open>queueTimer\<close>, \<open>currentView\<close>, here whether it is set);
  the \<open>abortController\<close> of \<open>AIProvider\<close> (the request it belongs to); the fields of
  \<open>TriggerPlugin\<close> (\<open>idleTimer\<close>, \<open>lastDocLength\<close>); and the runtime: the timeouts that are
  armed, the suspended calls of \<open>predict\<close>, the number of callbacks waiting for the next
  animation frame (each one is \<open>clearSuggestion(view)\<close>), and a counter for fresh handles.
\<close>

record world =
  settings :: ThoughtCompletionSettings
  view :: EditorView
  state :: SuggestionState
  queueTimer :: "nat option"
  currentView :: bool
  abortController :: "nat option"
  idleTimer :: "nat option"
  lastDocLength :: nat
  timers :: "(nat \<times> timer_kind) list"
  pending :: "request list"
  frames :: nat
  next_id :: nat

definition setState :: "world \<Rightarrow> SuggestionState \<Rightarrow> world" where
  "setState w newState = w\<lparr>state := newState\<rparr>"

definition clearTimeout :: "world \<Rightarrow> nat \<Rightarrow> world" where
  "clearTimeout w t = w\<lparr>timers := filter (\<lambda>x. fst x \<noteq> t) (timers w)\<rparr>"

definition setTimeout :: "world \<Rightarrow> timer_kind \<Rightarrow> world" where
  "setTimeout w k = w\<lparr>timers := timers w @ [(next_id w, k)], next_id := Suc (next_id w)\<rparr>"

definition startQueueTimer :: "world \<Rightarrow> world" where
  "startQueueTimer w = (setTimeout w QueueTimer)\<lparr>queueTimer := Some (next_id w)\<rparr>"

definition cancelQueueTimer :: "world \<Rightarrow> world" where
  "cancelQueueTimer w =
     (case queueTimer w of
        None \<Rightarrow> w
      | Some t \<Rightarrow> (clearTimeout w t)\<lparr>queueTimer := None\<rparr>)"

text \<open>\<open>AIProvider.abort\<close>: aborts the controller it holds, if any, and forgets it.\<close>

definition abort :: "world \<Rightarrow> world" where
  "abort w =
     (case abortController w of
        None \<Rightarrow> w
      | Some r \<Rightarrow>
          w\<lparr>pending := map (\<lambda>q. if req_id q = r then q\<lparr>req_aborted := True\<rparr> else q) (pending w),
            abortController := None\<rparr>)"

text \<open>\<open>view.dispatch\<close> of a transaction that carries one effect and nothing else, as
  \<open>showSuggestion\<close> and \<open>clearSuggestion\<close> build it. The field is updated;
  \<open>TriggerPlugin.update\<close> runs with \<open>docChanged\<close> and \<open>selectionSet\<close> false, where all it does
  is \<open>stateMachine.setView(update.view)\<close>.\<close>

definition dispatch_effect :: "world \<Rightarrow> (string \<times> nat) option \<Rightarrow> world" where
  "dispatch_effect w e =
     (let tr = \<lparr>tr_effects = [e], tr_docChanged = False, tr_selection = False,
                 tr_doc = doc (view w), tr_head = sel_head (view w),
                 tr_inputType = False, tr_inserted = []\<rparr>
      in w\<lparr>view := (view w)\<lparr>ghost := ghostTextState_update (ghost (view w)) tr\<rparr>,
            currentView := True\<rparr>)"

definition showSuggestion :: "world \<Rightarrow> string \<Rightarrow> world" where
  "showSuggestion w text = dispatch_effect w (Some (text, sel_head (view w)))"

definition clearSuggestion :: "world \<Rightarrow> world" where
  "clearSuggestion w = dispatch_effect w None"

definition hasSuggestion :: "world \<Rightarrow> bool" where
  "hasSuggestion w = (ghost (view w) \<noteq> None)"

section \<open>Suggestion lifecycle engine (state-machine.ts)\<close>

text \<open>\<open>predict\<close> up to its \<open>await\<close>: with a view and in state \<open>predicting\<close> it extracts the
  context and calls \<open>complete\<close>, which aborts what is in flight, returns \<open>null\<close> at once when
  the credentials are missing, and otherwise installs a new controller and calls \<open>fetch\<close>.\<close>

definition complete_begin :: "world \<Rightarrow> CompletionContext \<Rightarrow> world" where
  "complete_begin w ctx =
     (let w1 = abort w;
          fetched = \<not> credentials_missing (settings w1);
          r = \<lparr>req_id = next_id w1, req_context = ctx, req_fetched = fetched, req_aborted = False\<rparr>
      in w1\<lparr>abortController := (if fetched then Some (next_id w1) else abortController w1),
             pending := pending w1 @ [r],
             next_id := Suc (next_id w1)\<rparr>)"

definition predict :: "world \<Rightarrow> world" where
  "predict w =
     (if \<not> currentView w \<or> state w \<noteq> Predicting then w
      else complete_begin w
             (extractContext (view w) (contextChars (settings w)) (includeHeadingTrail (settings w))))"

text \<open>\<open>predict\<close> after its \<open>await\<close>, given the value \<open>complete\<close> returned.\<close>

definition predict_resume :: "world \<Rightarrow> CompletionContext \<Rightarrow> string option \<Rightarrow> world" where
  "predict_resume w ctx suggestion =
     (if state w \<noteq> Predicting then w
      else (case suggestion of
              None \<Rightarrow> setState w Idle
            | Some text \<Rightarrow>
                (if text = [] then setState w Idle
                 else if sel_head (view w) = cursorPosition ctx
                      then setState (showSuggestion w text) Suggesting
                      else setState w Idle)))"

text \<open>The network answers request \<open>rid\<close>. An aborted signal makes \<open>fetch\<close> reject with
  \<open>AbortError\<close> whatever the network sent. The rest of \<open>complete\<close> runs: for a request that
  called \<open>fetch\<close>, the \<open>try\<close>, the \<open>catch\<close> and the \<open>finally\<close>, which sets the provider's
  \<open>abortController\<close> to \<open>null\<close>. Then \<open>predict\<close> resumes.\<close>

definition resolve :: "world \<Rightarrow> nat \<Rightarrow> fetch_outcome \<Rightarrow> world" where
  "resolve w rid outcome =
     (case filter (\<lambda>q. req_id q = rid) (pending w) of
        [] \<Rightarrow> w
      | r # _ \<Rightarrow>
          (let w1 = w\<lparr>pending := filter (\<lambda>q. req_id q \<noteq> rid) (pending w)\<rparr>;
               answer = (if req_aborted r then FetchRejected AbortError else outcome);
               result = (if req_fetched r then complete_fetched (settings w1) answer else Inr None);
               w2 = (if req_fetched r then w1\<lparr>abortController := None\<rparr> else w1)
           in case result of
                Inl e \<Rightarrow> w2
              | Inr suggestion \<Rightarrow> predict_resume w2 (req_context r) suggestion))"

definition trigger :: "world \<Rightarrow> world" where
  "trigger w =
     (if state w = Disabled then w
      else if manualTriggerOnly (settings w) then w
      else (let w1 = w\<lparr>currentView := True\<rparr>;
                d = doc (view w1);
                pos = sel_head (view w1)
            in if isInCodeBlock d pos then w1
               else if isInFrontmatter d pos then w1
               else (let w2 = (if state w1 = Queued then cancelQueueTimer w1
                               else if state w1 = Predicting then abort w1
                               else if state w1 = Suggesting then clearSuggestion w1
                               else w1)
                     in startQueueTimer (setState w2 Queued))))"

definition manualTrigger :: "world \<Rightarrow> world" where
  "manualTrigger w =
     (if state w = Disabled then w
      else (let w1 = w\<lparr>currentView := True\<rparr>;
                d = doc (view w1);
                pos = sel_head (view w1)
            in if isInCodeBlock d pos \<or> isInFrontmatter d pos then w1
               else (let w2 = abort (cancelQueueTimer w1);
                         w3 = (if state w2 = Suggesting then clearSuggestion w2 else w2)
                     in predict (setState w3 Predicting))))"

definition cancelQueue :: "world \<Rightarrow> world" where
  "cancelQueue w =
     (if state w = Queued then setState (cancelQueueTimer w) Idle
      else if state w = Predicting then setState (abort w) Idle
      else if state w = Suggesting then setState w Idle
      else w)"

text \<open>\<open>dismiss\<close> changes the state at once and leaves \<open>clearSuggestion\<close> to the next
  animation frame.\<close>

definition dismiss :: "world \<Rightarrow> world" where
  "dismiss w =
     (if state w = Suggesting \<and> currentView w
      then (setState w Idle)\<lparr>frames := Suc (frames w)\<rparr>
      else w)"

definition disable :: "world \<Rightarrow> world" where
  "disable w =
     (let w1 = abort (cancelQueueTimer w);
          w2 = (if state w1 = Suggesting \<and> currentView w1 then clearSuggestion w1 else w1)
      in setState w2 Disabled)"

definition enable :: "world \<Rightarrow> world" where
  "enable w = (if state w = Disabled then setState w Idle else w)"

definition updateSettings :: "world \<Rightarrow> ThoughtCompletionSettings \<Rightarrow> world" where
  "updateSettings w s =
     (let w1 = w\<lparr>settings := s\<rparr>
      in if \<not> enabled s \<and> state w1 \<noteq> Disabled then disable w1
         else if enabled s \<and> state w1 = Disabled then enable w1
         else w1)"

text \<open>The callback of the queue timer.\<close>

definition queueTimer_fired :: "world \<Rightarrow> world" where
  "queueTimer_fired w =
     (let w1 = w\<lparr>queueTimer := None\<rparr>
      in if state w1 = Queued then predict (setState w1 Predicting) else w1)"

section \<open>Trigger detector (editor/triggers.ts) and the Escape key (editor/extension.ts)\<close>

definition line_from :: "string \<Rightarrow> nat \<Rightarrow> nat" where
  "line_from d pos = pos - length (takeWhile (\<lambda>c. c \<noteq> CHR 0x0A) (rev (take pos d)))"

definition line_to :: "string \<Rightarrow> nat \<Rightarrow> nat" where
  "line_to d pos = pos + length (takeWhile (\<lambda>c. c \<noteq> CHR 0x0A) (drop pos d))"

definition clearIdleTimer :: "world \<Rightarrow> world" where
  "clearIdleTimer w =
     (case idleTimer w of
        None \<Rightarrow> w
      | Some t \<Rightarrow> (clearTimeout w t)\<lparr>idleTimer := None\<rparr>)"

definition resetIdleTimer :: "world \<Rightarrow> world" where
  "resetIdleTimer w =
     (let w1 = clearIdleTimer w
      in (setTimeout w1 IdleTimer)\<lparr>idleTimer := Some (next_id w1)\<rparr>)"

definition idleTimer_fired :: "world \<Rightarrow> world" where
  "idleTimer_fired w =
     (let w1 = w\<lparr>idleTimer := None\<rparr>
      in if enabled (settings w1) \<and> \<not> manualTriggerOnly (settings w1) then trigger w1 else w1)"

definition checkTriggers :: "world \<Rightarrow> Transaction \<Rightarrow> world" where
  "checkTriggers w tr =
     (let d = doc (view w);
          pos = sel_head (view w);
          charBefore = (if line_from d pos < pos then slice d (pos - 1) pos else []);
          charAfter = (if pos < length d then slice d pos (pos + 1) else [])
      in if triggerOnPunctuation (settings w) \<and>
            (\<exists>c \<in> set charBefore. c \<in> {CHR ''.'', CHR ''!'', CHR ''?''}) \<and>
            (charAfter = [] \<or> (\<exists>c \<in> set charAfter. is_space c) \<or> pos = line_to d pos)
         then trigger w
         else if triggerOnNewline (settings w) \<and> tr_inputType tr
              then foldl (\<lambda>w' inserted. if CHR 0x0A \<in> set inserted then trigger w' else w')
                         w (tr_inserted tr)
              else w)"

definition plugin_update :: "world \<Rightarrow> Transaction \<Rightarrow> world" where
  "plugin_update w tr =
     (let w1 = w\<lparr>currentView := True\<rparr>
      in if \<not> enabled (settings w1) then w1
         else if manualTriggerOnly (settings w1) then w1
         else (let w2 =
                     (if tr_docChanged tr
                      then (let newLength = length (doc (view w1));
                                isTyping = (lastDocLength w1 < newLength);
                                w3 = resetIdleTimer (cancelQueue (w1\<lparr>lastDocLength := newLength\<rparr>))
                            in if isTyping then checkTriggers w3 tr else w3)
                      else w1)
               in if tr_selection tr \<and> \<not> tr_docChanged tr then dismiss w2 else w2))"

text \<open>\<open>view.dispatch\<close> of a transaction of the user: the document and the selection take
  their new values, the overlay field is updated, then the plugin sees the update.\<close>

definition dispatch :: "world \<Rightarrow> Transaction \<Rightarrow> world" where
  "dispatch w tr =
     plugin_update
       (w\<lparr>view := \<lparr>doc = (if tr_docChanged tr then tr_doc tr else doc (view w)),
                    sel_head = tr_head tr,
                    ghost = ghostTextState_update (ghost (view w)) tr\<rparr>\<rparr>)
       tr"

definition escape_key :: "world \<Rightarrow> world" where
  "escape_key w = (if hasSuggestion w then dismiss (clearSuggestion w) else w)"

section \<open>Events\<close>

text \<open>
  What can happen to the world, one event at a time (the program runs on one thread):
  the user edits the document (new text, new head, whether the selection was set, whether it
  is typed input, the inserted texts); the user moves the cursor; the commands
  "trigger suggestion" and "dismiss suggestion"; the Escape key; a timeout fires; an
  animation frame runs the waiting callbacks; the network answers a request; a settings
  control assigns to the shared settings object; and \<open>saveSettings\<close> calls \<open>updateSettings\<close>
  with that object.
\<close>

datatype event =
    Edit string nat bool bool "string list"
  | Select nat
  | ManualTriggerCmd
  | DismissCmd
  | EscapeKey
  | TimerFires nat
  | AnimationFrame
  | Resolve nat fetch_outcome
  | SetSettings ThoughtCompletionSettings
  | SaveSettings

definition edit_transaction :: "string \<Rightarrow> nat \<Rightarrow> bool \<Rightarrow> bool \<Rightarrow> string list \<Rightarrow> Transaction" where
  "edit_transaction d h sel typed ins =
     \<lparr>tr_effects = [], tr_docChanged = True, tr_selection = sel, tr_doc = d, tr_head = h,
      tr_inputType = typed, tr_inserted = ins\<rparr>"

definition select_transaction :: "world \<Rightarrow> nat \<Rightarrow> Transaction" where
  "select_transaction w h =
     \<lparr>tr_effects = [], tr_docChanged = False, tr_selection = True, tr_doc = doc (view w),
      tr_head = h, tr_inputType = False, tr_inserted = []\<rparr>"

definition timer_fired :: "world \<Rightarrow> nat \<Rightarrow> world" where
  "timer_fired w t =
     (case filter (\<lambda>x. fst x = t) (timers w) of
        [] \<Rightarrow> w
      | (_, k) # _ \<Rightarrow>
          (let w1 = clearTimeout w t
           in case k of QueueTimer \<Rightarrow> queueTimer_fired w1 | IdleTimer \<Rightarrow> idleTimer_fired w1))"

definition animation_frame :: "world \<Rightarrow> world" where
  "animation_frame w = ((clearSuggestion ^^ frames w) w)\<lparr>frames := 0\<rparr>"

fun step :: "world \<Rightarrow> event \<Rightarrow> world" where
  "step w (Edit d h sel typed ins) = dispatch w (edit_transaction d h sel typed ins)"
| "step w (Select h) = dispatch w (select_transaction w h)"
| "step w ManualTriggerCmd = manualTrigger w"
| "step w DismissCmd = dismiss w"
| "step w EscapeKey = escape_key w"
| "step w (TimerFires t) = timer_fired w t"
| "step w AnimationFrame = animation_frame w"
| "step w (Resolve rid outcome) = resolve w rid outcome"
| "step w (SetSettings s) = w\<lparr>settings := s\<rparr>"
| "step w SaveSettings = updateSettings w (settings w)"

definition run :: "world \<Rightarrow> event list \<Rightarrow> world" where
  "run w es = foldl step w es"

text \<open>The world once the plugin has loaded and the editor view with its \<open>TriggerPlugin\<close>
  exists: the constructor of the engine chose \<open>idle\<close> or \<open>disabled\<close>, the constructor of the
  plugin recorded the view and the length of the document, nothing is armed or in flight.\<close>

definition init_world :: "ThoughtCompletionSettings \<Rightarrow> string \<Rightarrow> nat \<Rightarrow> world" where
  "init_world s d h =
     \<lparr>settings = s,
      view = \<lparr>doc = d, sel_head = h, ghost = None\<rparr>,
      state = (if enabled s then Idle else Disabled),
      queueTimer = None, currentView = True, abortController = None,
      idleTimer = None, lastDocLength = length d,
      timers = [], pending = [], frames = 0, next_id = 0\<rparr>"

text \<open>\<open>DEFAULT_SETTINGS\<close> of types.ts, and the same with an API key filled in.\<close>

definition DEFAULT_SETTINGS :: ThoughtCompletionSettings where
  "DEFAULT_SETTINGS =
     \<lparr>apiEndpoint = ''https://api.openai.com/v1'', apiKey = [], mode = Auto,
      triggerDelay = 2000, triggerOnPunctuation = True, triggerOnNewline = True,
      manualTriggerOnly = False, contextChars = 1500, includeHeadingTrail = True,
      enabled = True, suggestionCase = CaseNone\<rparr>"

definition configured :: ThoughtCompletionSettings where
  "configured = DEFAULT_SETTINGS\<lparr>apiKey := ''sk-test''\<rparr>"

text \<open>Two provisos on an execution, checked event by event: the plugin's gate is open
  (enabled, not manual-only) at every edit and cursor move, and no request is answered
  while a deferred \<open>clearSuggestion\<close> is still waiting for its animation frame.\<close>

fun admissible :: "world \<Rightarrow> event \<Rightarrow> bool" where
  "admissible w (Edit d h sel typed ins) =
     (enabled (settings w) \<and> \<not> manualTriggerOnly (settings w))"
| "admissible w (Select h) = (enabled (settings w) \<and> \<not> manualTriggerOnly (settings w))"
| "admissible w (Resolve rid outcome) = (frames w = 0)"
| "admissible w e = True"

fun orderly :: "world \<Rightarrow> event list \<Rightarrow> bool" where
  "orderly w [] = True"
| "orderly w (e # es) = (admissible w e \<and> orderly (step w e) es)"

text \<open>
  Two statements about a world that the executions below preserve. The first: the view is
  known to the engine, and an overlay that is present goes with state \<open>suggesting\<close> or with
  a deferred clear that has not run yet. The second: in state \<open>suggesting\<close> the overlay is
  present and no deferred clear is waiting.
\<close>

definition overlay_accounted :: "world \<Rightarrow> bool" where
  "overlay_accounted w =
     (currentView w \<and> (ghost (view w) \<noteq> None \<longrightarrow> state w = Suggesting \<or> 0 < frames w))"

definition suggesting_shown :: "world \<Rightarrow> bool" where
  "suggesting_shown w =
     (currentView w \<and> (state w = Suggesting \<longrightarrow> ghost (view w) \<noteq> None \<and> frames w = 0))"

section \<open>Scenarios\<close>

text \<open>
  Concrete executions from a freshly loaded plugin with credentials configured: a manual
  trigger with its request in flight; a second manual trigger on top of it; the same after
  the first request has settled and the user has typed a full stop; a suggestion on
  display (at offset 5, and at offset 42 of a longer document); a queued automatic trigger;
  a cursor that moved while the request was in flight; a cursor inside an open code fence
  (in state \<open>idle\<close>, and in state \<open>queued\<close> with the delay timer armed); a cursor inside front
  matter; a queued trigger with the manual-only flag set afterwards; and a disabled plugin.
\<close>

definition predicting_world :: world where
  "predicting_world = run (init_world configured ''Hello'' 5) [ManualTriggerCmd]"

definition superseded_world :: world where
  "superseded_world = run (init_world configured ''Hello'' 5) [ManualTriggerCmd, ManualTriggerCmd]"

definition stale_queued_world :: world where
  "stale_queued_world =
     run (init_world configured ''Hello'' 5)
       [ManualTriggerCmd, ManualTriggerCmd, Resolve 0 (FetchRejected AbortError),
        Edit ''Hello.'' 6 False True [''.'']]"

definition shown_events :: "event list" where
  "shown_events = [ManualTriggerCmd, Resolve 0 (HttpOk (Content ''think''))]"

definition shown_at_42 :: world where
  "shown_at_42 = run (init_world configured ''Plans are nothing; planning is everything, he said.'' 42) shown_events"

definition queued_world :: world where
  "queued_world = run (init_world configured ''Hello'' 5) [Edit ''Hello.'' 6 False True [''.'']]"

definition fenced_world :: world where
  "fenced_world = init_world configured (''```'' @ LF @ ''code'') 8"

definition queued_manual_only_world :: world where
  "queued_manual_only_world =
     run (init_world configured ''Hello'' 5)
       [Edit ''Hello.'' 6 False True [''.''],
        SetSettings (configured\<lparr>manualTriggerOnly := True\<rparr>)]"

definition fenced_queued_world :: world where
  "fenced_queued_world =
     run (init_world configured (''Hi'' @ LF @ ''```'' @ LF @ ''code'') 2)
       [Edit (''Hi.'' @ LF @ ''```'' @ LF @ ''code'') 3 False True [''.''], Select 11]"

definition frontmatter_world :: world where
  "frontmatter_world =
     init_world configured (''---'' @ LF @ ''title: x'' @ LF @ ''---'' @ LF @ ''body'') 6"

definition shown_world :: world where
  "shown_world = run (init_world configured ''Hello'' 5) shown_events"

definition disabled_world :: world where
  "disabled_world = init_world (configured\<lparr>enabled := False\<rparr>) ''Hello'' 5"

definition moved_world :: world where
  "moved_world = run (init_world configured ''Hello'' 5) [ManualTriggerCmd, Select 2]"

section \<open>Properties of the pure functions\<close>

lemma lower_unit_idem: "lower_unit (lower_unit c) = lower_unit c"
  unfolding lower_unit_def code_unit_def Let_def
  by (auto simp: of_char_of)

lemma toLowerCase_idem: "toLowerCase (toLowerCase s) = toLowerCase s"
  by (simp add: toLowerCase_def lower_unit_idem)

lemma length_slice: "length (slice s a b) = min b (length s) - a"
  by (simp add: slice_def min.commute)

lemma toLowerCase_first: "toLowerCase [c] = l # ls \<Longrightarrow> toLowerCase [l] = [l]"
  by (auto simp: toLowerCase_def lower_unit_idem)

lemma lower_code_unit_fixed: "l \<in> set (lower_code_unit c) \<Longrightarrow> lower_code_unit l = [l]"
  by (auto simp: lower_code_unit_def split: if_splits)

lemma concat_fixed: "(\<And>l. l \<in> set xs \<Longrightarrow> f l = [l]) \<Longrightarrow> concat (map f xs) = xs"
  by (induction xs) simp_all

lemma toLowerCase_units_idem: "toLowerCase_units (toLowerCase_units s) = toLowerCase_units s"
proof (induction s)
  case Nil
  then show ?case by (simp add: toLowerCase_units_def)
next
  case (Cons c s)
  have "concat (map lower_code_unit (lower_code_unit c)) = lower_code_unit c"
    by (rule concat_fixed) (rule lower_code_unit_fixed)
  with Cons show ?case by (simp add: toLowerCase_units_def)
qed

lemma toLowerCase_units_first:
  "toLowerCase_units [c] = l # ls \<Longrightarrow> toLowerCase_units [l] = [l]"
  using lower_code_unit_fixed [of l c] by (simp add: toLowerCase_units_def)

text \<open>
  C9. The case policy is idempotent: for every string, over any alphabet of code units, and
  each of the three policies, applying \<open>transformCase\<close> twice gives what applying it once
  gives. Two facts about the platform's \<open>toLowerCase\<close> are assumed: it is idempotent, and
  the first unit of the lowercase of a one-unit string is, as a one-unit string, its own
  lowercase. Nothing is assumed about lengths or about context.
\<close>

theorem transformCase_idempotent:
  assumes idem: "\<And>s. lower (lower s) = lower s"
    and first: "\<And>c l ls. lower [c] = l # ls \<Longrightarrow> lower [l] = [l]"
  shows "transformCase lower (transformCase lower s p) p = transformCase lower s p"
proof (cases p)
  case CaseNone
  then show ?thesis by (simp add: transformCase_def)
next
  case CaseLower
  then show ?thesis by (simp add: transformCase_def idem)
next
  case CaseFirstLower
  show ?thesis
  proof (cases s)
    case Nil
    then show ?thesis by (simp add: transformCase_def)
  next
    case (Cons c0 rest)
    show ?thesis
    proof (cases "lower [c0]")
      case Nil
      then show ?thesis using Cons CaseFirstLower
        by (cases rest) (auto simp: transformCase_def slice_from_def)
    next
      case (Cons l ls)
      then have "lower [l] = [l]" by (rule first)
      then show ?thesis using Cons \<open>s = c0 # rest\<close> CaseFirstLower
        by (cases rest) (auto simp: transformCase_def slice_from_def Let_def)
    qed
  qed
qed

text \<open>
  Both lowercasings of this theory meet the two assumptions. With the expanding one, the
  text U+0130 followed by \<open>s\<close> becomes \<open>i\<close>, U+0307, \<open>s\<close> under \<open>firstLower\<close>, three units from
  two, and stays so under a second application.
\<close>

theorem transformCase_idempotent_witness:
  "transformCase toLowerCase_units [304, 115] CaseFirstLower = [105, 775, 115] \<and>
   transformCase toLowerCase_units (transformCase toLowerCase_units [304, 115] CaseFirstLower)
       CaseFirstLower
     = transformCase toLowerCase_units [304, 115] CaseFirstLower \<and>
   map code_unit (transformCase toLowerCase ''Hi'' CaseLower) = [104, 105] \<and>
   transformCase toLowerCase (transformCase toLowerCase ''Hi'' CaseLower) CaseLower
     = transformCase toLowerCase ''Hi'' CaseLower"
proof -
  have a: "transformCase toLowerCase_units [304, 115] CaseFirstLower = [105, 775, 115]"
    by (simp add: transformCase_def toLowerCase_units_def lower_code_unit_def slice_from_def)
  have b: "map code_unit (transformCase toLowerCase ''Hi'' CaseLower) = [104, 105]"
    by (simp add: transformCase_def toLowerCase_def lower_unit_def code_unit_def of_char_of)
  from a b
    transformCase_idempotent [of toLowerCase_units "[304, 115]" CaseFirstLower,
      OF toLowerCase_units_idem toLowerCase_units_first]
    transformCase_idempotent [of toLowerCase "''Hi''" CaseLower,
      OF toLowerCase_idem toLowerCase_first]
  show ?thesis by simp
qed

text \<open>
  C8. Context extraction is a function of the document text, the cursor offset, the budget
  and the heading-trail flag alone (the overlay held by the view plays no part, and the
  captured cursor position is the head of the selection); after boundary trimming the prefix
  has at most \<open>B\<close> units and the suffix at most \<open>B div 3\<close>.
\<close>

theorem extractContext_bounds:
  "length (prefix (extractContext v B t)) \<le> B \<and>
   length (suffix (extractContext v B t)) \<le> B div 3 \<and>
   cursorPosition (extractContext v B t) = sel_head v \<and>
   extractContext (v\<lparr>ghost := g\<rparr>) B t = extractContext v B t"
proof -
  have p: "length (prefix (extractContext v B t)) \<le> B"
    by (auto simp: extractContext_def Let_def length_slice slice_from_def)
  have s: "length (suffix (extractContext v B t)) \<le> B div 3"
    by (auto simp: extractContext_def Let_def length_slice)
  have c: "cursorPosition (extractContext v B t) = sel_head v"
    by (simp add: extractContext_def Let_def)
  have d: "extractContext (v\<lparr>ghost := g\<rparr>) B t = extractContext v B t"
    by (simp add: extractContext_def)
  from p s c d show ?thesis by blast
qed

text \<open>
  C7. \<open>complete\<close> never rejects: whatever the settings and whatever the network answers,
  the promise settles with a value. With the API key or the endpoint empty, \<open>fetch\<close> is not
  called and the value is \<open>null\<close>; a response that is not \<open>ok\<close>, a body that is not JSON or
  not of the expected shape, a network failure and an abort all give \<open>null\<close>.
\<close>

theorem complete_never_throws:
  "(\<exists>r. fst (complete st outcome) = Inr r) \<and>
   complete (st\<lparr>apiKey := []\<rparr>) outcome = (Inr None, False) \<and>
   complete (st\<lparr>apiEndpoint := []\<rparr>) outcome = (Inr None, False) \<and>
   fst (complete st (HttpNotOk b)) = Inr None \<and>
   fst (complete st (HttpOk InvalidJson)) = Inr None \<and>
   fst (complete st (HttpOk JsonNull)) = Inr None \<and>
   fst (complete st (HttpOk ContentNotString)) = Inr None \<and>
   fst (complete st (HttpOk NoContent)) = Inr None \<and>
   fst (complete st (FetchRejected NetworkError)) = Inr None \<and>
   fst (complete st (FetchRejected AbortError)) = Inr None"
proof -
  have total: "\<exists>r. complete_fetched st outcome = Inr r"
    by (cases "complete_try st outcome") (simp_all add: complete_fetched_def complete_catch_def)
  then have a: "\<exists>r. fst (complete st outcome) = Inr r"
    by (simp add: complete_def)
  have b: "complete (st\<lparr>apiKey := []\<rparr>) outcome = (Inr None, False)"
          "complete (st\<lparr>apiEndpoint := []\<rparr>) outcome = (Inr None, False)"
    by (simp_all add: complete_def credentials_missing_def)
  have c: "fst (complete st (HttpNotOk b)) = Inr None"
          "fst (complete st (HttpOk InvalidJson)) = Inr None"
          "fst (complete st (HttpOk JsonNull)) = Inr None"
          "fst (complete st (HttpOk ContentNotString)) = Inr None"
          "fst (complete st (HttpOk NoContent)) = Inr None"
          "fst (complete st (FetchRejected NetworkError)) = Inr None"
          "fst (complete st (FetchRejected AbortError)) = Inr None"
    by (simp_all add: complete_def complete_fetched_def complete_catch_def)
  from a b c show ?thesis by blast
qed

section \<open>How each operation changes the fields of the world\<close>

lemma abort_fields [simp]:
  "state (abort w) = state w" "view (abort w) = view w" "frames (abort w) = frames w"
  "currentView (abort w) = currentView w" "queueTimer (abort w) = queueTimer w"
  "timers (abort w) = timers w" "idleTimer (abort w) = idleTimer w"
  "settings (abort w) = settings w" "next_id (abort w) = next_id w"
  "abortController (abort w) = None"
  by (simp_all add: abort_def split: option.splits)

lemma abort_pending:
  "pending (abort w) =
     map (\<lambda>q. if abortController w = Some (req_id q) then q\<lparr>req_aborted := True\<rparr> else q) (pending w)"
  by (cases "abortController w") (auto simp: abort_def)

lemma cancelQueueTimer_fields [simp]:
  "state (cancelQueueTimer w) = state w" "view (cancelQueueTimer w) = view w"
  "frames (cancelQueueTimer w) = frames w" "currentView (cancelQueueTimer w) = currentView w"
  "pending (cancelQueueTimer w) = pending w"
  "abortController (cancelQueueTimer w) = abortController w"
  "idleTimer (cancelQueueTimer w) = idleTimer w" "settings (cancelQueueTimer w) = settings w"
  "next_id (cancelQueueTimer w) = next_id w" "queueTimer (cancelQueueTimer w) = None"
  by (simp_all add: cancelQueueTimer_def clearTimeout_def split: option.splits)

lemma cancelQueueTimer_timers:
  "timers (cancelQueueTimer w) = filter (\<lambda>x. queueTimer w \<noteq> Some (fst x)) (timers w)"
  by (cases "queueTimer w") (auto simp: cancelQueueTimer_def clearTimeout_def intro: filter_cong)

lemma startQueueTimer_fields [simp]:
  "state (startQueueTimer w) = state w" "view (startQueueTimer w) = view w"
  "frames (startQueueTimer w) = frames w" "currentView (startQueueTimer w) = currentView w"
  "pending (startQueueTimer w) = pending w"
  "abortController (startQueueTimer w) = abortController w"
  "idleTimer (startQueueTimer w) = idleTimer w" "settings (startQueueTimer w) = settings w"
  "queueTimer (startQueueTimer w) = Some (next_id w)"
  "timers (startQueueTimer w) = timers w @ [(next_id w, QueueTimer)]"
  "next_id (startQueueTimer w) = Suc (next_id w)"
  by (simp_all add: startQueueTimer_def setTimeout_def)

lemma setState_fields [simp]:
  "state (setState w s) = s" "view (setState w s) = view w" "frames (setState w s) = frames w"
  "currentView (setState w s) = currentView w" "pending (setState w s) = pending w"
  "abortController (setState w s) = abortController w" "queueTimer (setState w s) = queueTimer w"
  "timers (setState w s) = timers w" "idleTimer (setState w s) = idleTimer w"
  "settings (setState w s) = settings w" "next_id (setState w s) = next_id w"
  by (simp_all add: setState_def)

lemma clearSuggestion_fields [simp]:
  "state (clearSuggestion w) = state w" "ghost (view (clearSuggestion w)) = None"
  "doc (view (clearSuggestion w)) = doc (view w)"
  "sel_head (view (clearSuggestion w)) = sel_head (view w)"
  "frames (clearSuggestion w) = frames w" "currentView (clearSuggestion w) = True"
  "pending (clearSuggestion w) = pending w"
  "abortController (clearSuggestion w) = abortController w"
  "queueTimer (clearSuggestion w) = queueTimer w" "timers (clearSuggestion w) = timers w"
  "idleTimer (clearSuggestion w) = idleTimer w" "settings (clearSuggestion w) = settings w"
  "next_id (clearSuggestion w) = next_id w"
  by (simp_all add: clearSuggestion_def dispatch_effect_def ghostTextState_update_def)

lemma showSuggestion_fields [simp]:
  "state (showSuggestion w t) = state w"
  "ghost (view (showSuggestion w t)) = Some (t, sel_head (view w))"
  "doc (view (showSuggestion w t)) = doc (view w)"
  "sel_head (view (showSuggestion w t)) = sel_head (view w)"
  "frames (showSuggestion w t) = frames w" "currentView (showSuggestion w t) = True"
  "pending (showSuggestion w t) = pending w"
  "abortController (showSuggestion w t) = abortController w"
  "queueTimer (showSuggestion w t) = queueTimer w" "timers (showSuggestion w t) = timers w"
  "idleTimer (showSuggestion w t) = idleTimer w" "settings (showSuggestion w t) = settings w"
  "next_id (showSuggestion w t) = next_id w"
  by (simp_all add: showSuggestion_def dispatch_effect_def ghostTextState_update_def)

lemma complete_begin_fields [simp]:
  "state (complete_begin w c) = state w" "view (complete_begin w c) = view w"
  "frames (complete_begin w c) = frames w" "currentView (complete_begin w c) = currentView w"
  "queueTimer (complete_begin w c) = queueTimer w" "timers (complete_begin w c) = timers w"
  "idleTimer (complete_begin w c) = idleTimer w" "settings (complete_begin w c) = settings w"
  by (simp_all add: complete_begin_def Let_def)

lemma predict_fields [simp]:
  "state (predict w) = state w" "view (predict w) = view w"
  "frames (predict w) = frames w" "currentView (predict w) = currentView w"
  "queueTimer (predict w) = queueTimer w" "timers (predict w) = timers w"
  "idleTimer (predict w) = idleTimer w" "settings (predict w) = settings w"
  by (simp_all add: predict_def)

lemma resetIdleTimer_fields [simp]:
  "state (resetIdleTimer w) = state w" "view (resetIdleTimer w) = view w"
  "frames (resetIdleTimer w) = frames w" "currentView (resetIdleTimer w) = currentView w"
  "settings (resetIdleTimer w) = settings w" "pending (resetIdleTimer w) = pending w"
  "abortController (resetIdleTimer w) = abortController w"
  by (simp_all add: resetIdleTimer_def clearIdleTimer_def setTimeout_def clearTimeout_def Let_def
      split: option.splits)

lemma complete_fetched_total: "\<exists>r. complete_fetched st outcome = Inr r"
  by (cases "complete_try st outcome") (simp_all add: complete_fetched_def complete_catch_def)

lemma trigger_frames [simp]: "frames (trigger w) = frames w"
  by (simp add: trigger_def Let_def)

lemma trigger_settings [simp]: "settings (trigger w) = settings w"
  by (simp add: trigger_def Let_def)

lemma trigger_currentView: "currentView w \<Longrightarrow> currentView (trigger w)"
  by (simp add: trigger_def Let_def)

lemma trigger_state: "state (trigger w) = state w \<or> state (trigger w) = Queued"
  by (simp add: trigger_def Let_def)

lemma trigger_ghost: "ghost (view (trigger w)) = ghost (view w) \<or> ghost (view (trigger w)) = None"
  by (simp add: trigger_def Let_def)

lemma trigger_accounted: "overlay_accounted w \<Longrightarrow> overlay_accounted (trigger w)"
  by (auto simp: overlay_accounted_def trigger_def Let_def)

lemma trigger_shown: "suggesting_shown w \<Longrightarrow> suggesting_shown (trigger w)"
  by (auto simp: suggesting_shown_def trigger_def Let_def)

lemma foldl_trigger_accounted:
  "overlay_accounted w \<Longrightarrow>
   overlay_accounted (foldl (\<lambda>w' i. if P i then trigger w' else w') w xs)"
  by (induction xs arbitrary: w) (simp_all add: trigger_accounted)

lemma foldl_trigger_shown:
  "suggesting_shown w \<Longrightarrow>
   suggesting_shown (foldl (\<lambda>w' i. if P i then trigger w' else w') w xs)"
  by (induction xs arbitrary: w) (simp_all add: trigger_shown)

lemma checkTriggers_accounted: "overlay_accounted w \<Longrightarrow> overlay_accounted (checkTriggers w tr)"
  unfolding checkTriggers_def Let_def
  by (simp add: trigger_accounted foldl_trigger_accounted)

lemma checkTriggers_shown: "suggesting_shown w \<Longrightarrow> suggesting_shown (checkTriggers w tr)"
  unfolding checkTriggers_def Let_def
  by (simp add: trigger_shown foldl_trigger_shown)

lemma manualTrigger_accounted: "overlay_accounted w \<Longrightarrow> overlay_accounted (manualTrigger w)"
  by (auto simp: overlay_accounted_def manualTrigger_def Let_def)

lemma manualTrigger_shown: "suggesting_shown w \<Longrightarrow> suggesting_shown (manualTrigger w)"
  by (auto simp: suggesting_shown_def manualTrigger_def Let_def)

lemma dismiss_accounted: "overlay_accounted w \<Longrightarrow> overlay_accounted (dismiss w)"
  by (auto simp: overlay_accounted_def dismiss_def)

lemma dismiss_shown: "suggesting_shown w \<Longrightarrow> suggesting_shown (dismiss w)"
  by (auto simp: suggesting_shown_def dismiss_def)

lemma escape_accounted: "overlay_accounted w \<Longrightarrow> overlay_accounted (escape_key w)"
  by (auto simp: overlay_accounted_def escape_key_def dismiss_def hasSuggestion_def)

lemma escape_shown: "suggesting_shown w \<Longrightarrow> suggesting_shown (escape_key w)"
  by (auto simp: suggesting_shown_def escape_key_def dismiss_def hasSuggestion_def)

lemma funpow_clear_fields [simp]:
  "state ((clearSuggestion ^^ n) w) = state w" "frames ((clearSuggestion ^^ n) w) = frames w"
  by (induction n) simp_all

lemma funpow_clear_ghost: "0 < n \<Longrightarrow> ghost (view ((clearSuggestion ^^ n) w)) = None"
  by (cases n) simp_all

lemma funpow_clear_currentView: "currentView w \<Longrightarrow> currentView ((clearSuggestion ^^ n) w)"
  by (cases n) simp_all

lemma frame_accounted: "overlay_accounted w \<Longrightarrow> overlay_accounted (animation_frame w)"
  by (cases "frames w") (auto simp: overlay_accounted_def animation_frame_def funpow_clear_ghost
      funpow_clear_currentView)

lemma frame_shown: "suggesting_shown w \<Longrightarrow> suggesting_shown (animation_frame w)"
  by (cases "frames w") (auto simp: suggesting_shown_def animation_frame_def)

lemma predict_resume_accounted:
  "overlay_accounted w \<Longrightarrow> overlay_accounted (predict_resume w c x)"
  by (auto simp: overlay_accounted_def predict_resume_def split: option.splits)

lemma predict_resume_shown:
  "suggesting_shown w \<Longrightarrow> frames w = 0 \<Longrightarrow> suggesting_shown (predict_resume w c x)"
  by (auto simp: suggesting_shown_def predict_resume_def split: option.splits)

lemma resolve_accounted: "overlay_accounted w \<Longrightarrow> overlay_accounted (resolve w rid outcome)"
proof -
  assume a: "overlay_accounted w"
  have b: "overlay_accounted (w\<lparr>pending := p, abortController := None\<rparr>)"
          "overlay_accounted (w\<lparr>pending := p\<rparr>)" for p
    using a by (simp_all add: overlay_accounted_def)
  show ?thesis
    using a b
    by (auto simp: resolve_def Let_def predict_resume_accounted split: list.splits sum.splits)
qed

lemma resolve_shown:
  "suggesting_shown w \<Longrightarrow> frames w = 0 \<Longrightarrow> suggesting_shown (resolve w rid outcome)"
proof -
  assume a: "suggesting_shown w" and f: "frames w = 0"
  have b: "suggesting_shown (w\<lparr>pending := p, abortController := None\<rparr>)"
          "suggesting_shown (w\<lparr>pending := p\<rparr>)" for p
    using a by (simp_all add: suggesting_shown_def)
  show ?thesis
    using a b f
    by (auto simp: resolve_def Let_def predict_resume_shown split: list.splits sum.splits)
qed

lemma queueTimer_fired_accounted:
  "overlay_accounted w \<Longrightarrow> overlay_accounted (queueTimer_fired w)"
  by (auto simp: overlay_accounted_def queueTimer_fired_def Let_def)

lemma queueTimer_fired_shown:
  "suggesting_shown w \<Longrightarrow> suggesting_shown (queueTimer_fired w)"
  by (auto simp: suggesting_shown_def queueTimer_fired_def Let_def)

lemma idleTimer_fired_accounted:
  "overlay_accounted w \<Longrightarrow> overlay_accounted (idleTimer_fired w)"
proof -
  assume a: "overlay_accounted w"
  then have "overlay_accounted (w\<lparr>idleTimer := None\<rparr>)"
    by (simp add: overlay_accounted_def)
  then show ?thesis
    by (simp add: idleTimer_fired_def Let_def trigger_accounted)
qed

lemma idleTimer_fired_shown:
  "suggesting_shown w \<Longrightarrow> suggesting_shown (idleTimer_fired w)"
proof -
  assume a: "suggesting_shown w"
  then have "suggesting_shown (w\<lparr>idleTimer := None\<rparr>)"
    by (simp add: suggesting_shown_def)
  then show ?thesis
    by (simp add: idleTimer_fired_def Let_def trigger_shown)
qed

lemma clearTimeout_accounted: "overlay_accounted w \<Longrightarrow> overlay_accounted (clearTimeout w t)"
  by (simp add: overlay_accounted_def clearTimeout_def)

lemma clearTimeout_shown: "suggesting_shown w \<Longrightarrow> suggesting_shown (clearTimeout w t)"
  by (simp add: suggesting_shown_def clearTimeout_def)

lemma timer_fired_accounted: "overlay_accounted w \<Longrightarrow> overlay_accounted (timer_fired w t)"
  by (auto simp: timer_fired_def Let_def clearTimeout_accounted queueTimer_fired_accounted
      idleTimer_fired_accounted split: list.splits timer_kind.splits)

lemma timer_fired_shown: "suggesting_shown w \<Longrightarrow> suggesting_shown (timer_fired w t)"
  by (auto simp: timer_fired_def Let_def clearTimeout_shown queueTimer_fired_shown
      idleTimer_fired_shown split: list.splits timer_kind.splits)

lemma updateSettings_accounted:
  "overlay_accounted w \<Longrightarrow> overlay_accounted (updateSettings w s)"
  by (auto simp: overlay_accounted_def updateSettings_def disable_def enable_def Let_def)

lemma updateSettings_shown:
  "suggesting_shown w \<Longrightarrow> suggesting_shown (updateSettings w s)"
  by (auto simp: suggesting_shown_def updateSettings_def disable_def enable_def Let_def)

lemma cancelQueue_fields [simp]:
  "view (cancelQueue w) = view w" "frames (cancelQueue w) = frames w"
  "currentView (cancelQueue w) = currentView w" "settings (cancelQueue w) = settings w"
  "state (cancelQueue w) \<noteq> Suggesting"
  by (simp_all add: cancelQueue_def)

lemma ghost_update_edit [simp]:
  "ghostTextState_update g (edit_transaction d h sel typed ins) = None"
  by (simp add: ghostTextState_update_def edit_transaction_def)

lemma ghost_update_select:
  "ghostTextState_update g (select_transaction w h) =
     (case g of None \<Rightarrow> None | Some (t, p) \<Rightarrow> if h \<noteq> p then None else Some (t, p))"
  by (simp add: ghostTextState_update_def select_transaction_def split: option.splits)

lemma edit_accounted:
  "overlay_accounted (dispatch w (edit_transaction d h sel typed ins))"
proof -
  have "overlay_accounted v" if "currentView v" "ghost (view v) = None" for v
    using that by (simp add: overlay_accounted_def)
  then show ?thesis
    by (simp add: dispatch_def plugin_update_def Let_def checkTriggers_accounted)
      (simp add: edit_transaction_def)
qed

lemma edit_shown:
  assumes "enabled (settings w)" "\<not> manualTriggerOnly (settings w)"
  shows "suggesting_shown (dispatch w (edit_transaction d h sel typed ins))"
proof -
  have "suggesting_shown v" if "currentView v" "state v \<noteq> Suggesting" for v
    using that by (simp add: suggesting_shown_def)
  then show ?thesis using assms
    by (simp add: dispatch_def plugin_update_def Let_def checkTriggers_shown)
      (simp add: edit_transaction_def)
qed

lemma select_accounted:
  assumes "overlay_accounted w"
  shows "overlay_accounted (dispatch w (select_transaction w h))"
proof -
  let ?v = "w\<lparr>view := \<lparr>doc = doc (view w), sel_head = h,
               ghost = ghostTextState_update (ghost (view w)) (select_transaction w h)\<rparr>,
             currentView := True\<rparr>"
  have v: "overlay_accounted ?v"
    using assms by (auto simp: overlay_accounted_def ghost_update_select split: option.splits if_splits)
  have "dispatch w (select_transaction w h) = ?v \<or> dispatch w (select_transaction w h) = dismiss ?v"
    by (simp add: dispatch_def plugin_update_def Let_def select_transaction_def)
  with v show ?thesis
    using dismiss_accounted by metis
qed

lemma select_shown:
  assumes "enabled (settings w)" "\<not> manualTriggerOnly (settings w)"
  shows "suggesting_shown (dispatch w (select_transaction w h))"
  using assms
  by (simp add: dispatch_def plugin_update_def Let_def select_transaction_def dismiss_def
      suggesting_shown_def)

lemma step_accounted: "overlay_accounted w \<Longrightarrow> overlay_accounted (step w e)"
proof (cases e)
  case (SetSettings s)
  assume "overlay_accounted w"
  then show ?thesis using SetSettings by (simp add: overlay_accounted_def)
qed (simp_all add: edit_accounted select_accounted manualTrigger_accounted dismiss_accounted
      escape_accounted timer_fired_accounted frame_accounted resolve_accounted
      updateSettings_accounted)

lemma step_shown: "suggesting_shown w \<Longrightarrow> admissible w e \<Longrightarrow> suggesting_shown (step w e)"
proof (cases e)
  case (SetSettings s)
  assume "suggesting_shown w"
  then show ?thesis using SetSettings by (simp add: suggesting_shown_def)
qed (simp_all add: edit_shown select_shown manualTrigger_shown dismiss_shown
      escape_shown timer_fired_shown frame_shown resolve_shown updateSettings_shown)

lemma run_accounted: "overlay_accounted w \<Longrightarrow> overlay_accounted (run w es)"
  unfolding run_def by (induction es arbitrary: w) (simp_all add: step_accounted)

lemma run_shown: "suggesting_shown w \<Longrightarrow> orderly w es \<Longrightarrow> suggesting_shown (run w es)"
  unfolding run_def by (induction es arbitrary: w) (simp_all add: step_shown)

lemma init_invariants: "overlay_accounted (init_world s d h)" "suggesting_shown (init_world s d h)"
  by (simp_all add: overlay_accounted_def suggesting_shown_def init_world_def)

lemma trigger_disabled: "state w = Disabled \<Longrightarrow> trigger w = w"
  by (simp add: trigger_def)

lemma foldl_trigger_disabled:
  "state w = Disabled \<Longrightarrow> foldl (\<lambda>w' i. if P i then trigger w' else w') w xs = w"
  by (induction xs) (simp_all add: trigger_disabled)

lemma checkTriggers_disabled: "state w = Disabled \<Longrightarrow> checkTriggers w tr = w"
  unfolding checkTriggers_def Let_def
  by (simp add: trigger_disabled foldl_trigger_disabled)

lemma plugin_update_disabled: "state w = Disabled \<Longrightarrow> state (plugin_update w tr) = Disabled"
  by (simp add: plugin_update_def Let_def checkTriggers_disabled dismiss_def cancelQueue_def)

lemma timer_fired_disabled: "state w = Disabled \<Longrightarrow> state (timer_fired w t) = Disabled"
  by (auto simp: timer_fired_def Let_def clearTimeout_def queueTimer_fired_def idleTimer_fired_def
      trigger_disabled split: list.splits timer_kind.splits)

lemma resolve_disabled: "state w = Disabled \<Longrightarrow> state (resolve w rid outcome) = Disabled"
  by (auto simp: resolve_def Let_def predict_resume_def split: list.splits sum.splits)

lemma frame_state: "state (animation_frame w) = state w"
  by (simp add: animation_frame_def)

lemma step_disabled:
  assumes "state w = Disabled" and "state (step w e) \<noteq> Disabled"
  shows "e = SaveSettings \<and> enabled (settings w)"
  using assms
  by (cases e)
    (auto simp: dispatch_def plugin_update_disabled manualTrigger_def dismiss_def escape_key_def
      timer_fired_disabled frame_state resolve_disabled updateSettings_def split: if_splits)

section \<open>Evaluation of concrete executions\<close>

lemmas eval_defs =
  run_def init_world_def configured_def DEFAULT_SETTINGS_def
  manualTrigger_def trigger_def cancelQueue_def dismiss_def disable_def enable_def
  updateSettings_def queueTimer_fired_def idleTimer_fired_def timer_fired_def
  animation_frame_def escape_key_def dispatch_def plugin_update_def checkTriggers_def
  resetIdleTimer_def clearIdleTimer_def edit_transaction_def select_transaction_def
  predict_def complete_begin_def predict_resume_def resolve_def
  abort_def cancelQueueTimer_def startQueueTimer_def setTimeout_def clearTimeout_def
  setState_def showSuggestion_def clearSuggestion_def dispatch_effect_def hasSuggestion_def
  ghostTextState_update_def
  complete_fetched_def complete_catch_def credentials_missing_def
  extractContext_def extractHeadingTrail_def push_heading_def heading_match_def
  isInCodeBlock_def isInFrontmatter_def indexOf_def lastIndexOf_def
  slice_def slice_from_def startsWith_def endsWith_def LF_def
  line_from_def line_to_def trim_def is_space_def is_line_terminator_def code_unit_def
  transformCase_def cleanSuggestion_def lead_ins_def toLowerCase_def lower_unit_def
  Let_def

section \<open>The disabled state\<close>

text \<open>
  C10. The state \<open>disabled\<close> is absorbing under every operation except enabling: in a
  disabled world \<open>trigger\<close>, \<open>manualTrigger\<close>, \<open>cancelQueue\<close> and \<open>dismiss\<close> change nothing at
  all (so neither the state nor the overlay); \<open>enable\<close>, and \<open>updateSettings\<close> with
  \<open>enabled\<close> true, lead to \<open>idle\<close>; \<open>updateSettings\<close> with \<open>enabled\<close> false stays disabled;
  and of all events only \<open>saveSettings\<close> with \<open>enabled\<close> true leaves \<open>disabled\<close>.
\<close>

theorem disabled_absorbing:
  assumes "state w = Disabled"
  shows "trigger w = w \<and> manualTrigger w = w \<and> cancelQueue w = w \<and> dismiss w = w \<and>
         state (enable w) = Idle \<and>
         state (updateSettings w (s\<lparr>enabled := True\<rparr>)) = Idle \<and>
         state (updateSettings w (s\<lparr>enabled := False\<rparr>)) = Disabled \<and>
         (\<forall>e. state (step w e) \<noteq> Disabled \<longrightarrow> e = SaveSettings \<and> enabled (settings w))"
proof -
  have a: "trigger w = w \<and> manualTrigger w = w \<and> cancelQueue w = w \<and> dismiss w = w"
    using assms by (simp add: trigger_def manualTrigger_def cancelQueue_def dismiss_def)
  have b: "state (enable w) = Idle \<and>
           state (updateSettings w (s\<lparr>enabled := True\<rparr>)) = Idle \<and>
           state (updateSettings w (s\<lparr>enabled := False\<rparr>)) = Disabled"
    using assms by (simp add: enable_def updateSettings_def)
  from a b step_disabled [OF assms] show ?thesis by blast
qed

text \<open>
  The disabled plugin of the scenarios: every operation is ignored, a firing timer changes
  nothing, \<open>enable\<close> gives \<open>idle\<close>.
\<close>

theorem disabled_absorbing_witness:
  "state disabled_world = Disabled \<and>
   trigger disabled_world = disabled_world \<and>
   manualTrigger disabled_world = disabled_world \<and>
   cancelQueue disabled_world = disabled_world \<and>
   dismiss disabled_world = disabled_world \<and>
   state (enable disabled_world) = Idle \<and>
   state (step disabled_world (TimerFires 0)) = Disabled"
proof -
  have d: "state disabled_world = Disabled"
    by (simp add: disabled_world_def eval_defs)
  from disabled_absorbing [OF d, of configured] d show ?thesis by blast
qed

section \<open>Automatic trigger while a request is in flight\<close>

text \<open>
  C4, as the claim states it, fails: with a request in flight, automatic triggering permitted
  and the cursor in an eligible region, \<open>trigger\<close> does not stay in \<open>predicting\<close>, and it
  issues no new request.
\<close>

theorem trigger_while_predicting_counterexample:
  "state predicting_world = Predicting \<and>
   \<not> manualTriggerOnly (settings predicting_world) \<and>
   \<not> isInCodeBlock (doc (view predicting_world)) (sel_head (view predicting_world)) \<and>
   \<not> isInFrontmatter (doc (view predicting_world)) (sel_head (view predicting_world)) \<and>
   state (trigger predicting_world) \<noteq> Predicting \<and>
   map req_id (pending (trigger predicting_world)) = map req_id (pending predicting_world)"
  by (simp add: predicting_world_def eval_defs)

text \<open>
  C4, amended. When \<open>trigger\<close> is called in state \<open>predicting\<close> (manual-only unset, cursor
  outside code fences and front matter), the request in flight is aborted, the state
  becomes \<open>queued\<close> and a fresh delay timer is armed; \<open>trigger\<close> itself issues no request:
  the pending requests are the old ones, the one the provider held now aborted.
\<close>

theorem trigger_while_predicting:
  assumes "state w = Predicting" and "\<not> manualTriggerOnly (settings w)"
    and "\<not> isInCodeBlock (doc (view w)) (sel_head (view w))"
    and "\<not> isInFrontmatter (doc (view w)) (sel_head (view w))"
  shows "state (trigger w) = Queued \<and>
         queueTimer (trigger w) = Some (next_id w) \<and>
         timers (trigger w) = timers w @ [(next_id w, QueueTimer)] \<and>
         abortController (trigger w) = None \<and>
         pending (trigger w) =
           map (\<lambda>q. if abortController w = Some (req_id q) then q\<lparr>req_aborted := True\<rparr> else q)
               (pending w)"
  using assms by (simp add: trigger_def Let_def abort_pending)

text \<open>
  On the world with one request in flight: the trigger queues, arms timer 1 and leaves the
  provider without a controller.
\<close>

theorem trigger_while_predicting_witness:
  "state predicting_world = Predicting \<and>
   state (trigger predicting_world) = Queued \<and>
   queueTimer (trigger predicting_world) = Some 1 \<and>
   abortController (trigger predicting_world) = None"
proof -
  have h: "state predicting_world = Predicting"
    "\<not> manualTriggerOnly (settings predicting_world)"
    "\<not> isInCodeBlock (doc (view predicting_world)) (sel_head (view predicting_world))"
    "\<not> isInFrontmatter (doc (view predicting_world)) (sel_head (view predicting_world))"
    by (simp_all add: predicting_world_def eval_defs)
  have n: "next_id predicting_world = 1"
    by (simp add: predicting_world_def eval_defs)
  from trigger_while_predicting [OF h] h(1) n show ?thesis by simp
qed

section \<open>Manual trigger\<close>

text \<open>
  C6, as the claim states it, fails: with the cursor inside an open code fence and the state
  \<open>idle\<close>, \<open>manualTrigger\<close> is refused: the state stays \<open>idle\<close> and no request is started.
\<close>

theorem manualTrigger_in_fence_counterexample:
  "state fenced_world \<noteq> Disabled \<and>
   isInCodeBlock (doc (view fenced_world)) (sel_head (view fenced_world)) \<and>
   state (manualTrigger fenced_world) = Idle \<and>
   pending (manualTrigger fenced_world) = []"
  by (simp add: fenced_world_def eval_defs)

text \<open>
  C6, amended. \<open>manualTrigger\<close> is refused in state \<open>disabled\<close>, where it changes nothing. In
  every other state it is refused when the cursor is inside a code fence or inside front
  matter: the engine records the view and nothing else changes (state, timers, requests and
  overlay are as before). Everywhere else, whatever the manual-only flag says, it cancels
  the engine's delay timer and no other timer (the idle countdown of the trigger detector
  stays armed), aborts the request in flight, clears the overlay if the state is
  \<open>suggesting\<close> and leaves it as it is otherwise, enters \<open>predicting\<close> and starts a new
  request at once, with the context captured at the current cursor (\<open>fetch\<close> is called, and
  the provider holds the new controller, when the credentials are configured).
\<close>

theorem manualTrigger_effect:
  "(state w = Disabled \<longrightarrow> manualTrigger w = w) \<and>
   (state w \<noteq> Disabled \<and>
    (isInCodeBlock (doc (view w)) (sel_head (view w)) \<or>
     isInFrontmatter (doc (view w)) (sel_head (view w))) \<longrightarrow>
      manualTrigger w = w\<lparr>currentView := True\<rparr>) \<and>
   (state w \<noteq> Disabled \<and>
    \<not> isInCodeBlock (doc (view w)) (sel_head (view w)) \<and>
    \<not> isInFrontmatter (doc (view w)) (sel_head (view w)) \<longrightarrow>
      state (manualTrigger w) = Predicting \<and>
      queueTimer (manualTrigger w) = None \<and>
      timers (manualTrigger w) = filter (\<lambda>x. queueTimer w \<noteq> Some (fst x)) (timers w) \<and>
      idleTimer (manualTrigger w) = idleTimer w \<and>
      ghost (view (manualTrigger w)) = (if state w = Suggesting then None else ghost (view w)) \<and>
      abortController (manualTrigger w) =
        (if credentials_missing (settings w) then None else Some (next_id w)) \<and>
      pending (manualTrigger w) =
        map (\<lambda>q. if abortController w = Some (req_id q) then q\<lparr>req_aborted := True\<rparr> else q)
            (pending w)
        @ [\<lparr>req_id = next_id w,
            req_context = extractContext (view w) (contextChars (settings w))
                            (includeHeadingTrail (settings w)),
            req_fetched = \<not> credentials_missing (settings w),
            req_aborted = False\<rparr>])"
proof -
  have a: "state w = Disabled \<longrightarrow> manualTrigger w = w"
    by (simp add: manualTrigger_def)
  have b: "state w \<noteq> Disabled \<and>
    (isInCodeBlock (doc (view w)) (sel_head (view w)) \<or>
     isInFrontmatter (doc (view w)) (sel_head (view w))) \<longrightarrow>
      manualTrigger w = w\<lparr>currentView := True\<rparr>"
    by (auto simp: manualTrigger_def Let_def)
  have c: "state w \<noteq> Disabled \<and>
    \<not> isInCodeBlock (doc (view w)) (sel_head (view w)) \<and>
    \<not> isInFrontmatter (doc (view w)) (sel_head (view w)) \<longrightarrow>
      state (manualTrigger w) = Predicting \<and>
      queueTimer (manualTrigger w) = None \<and>
      timers (manualTrigger w) = filter (\<lambda>x. queueTimer w \<noteq> Some (fst x)) (timers w) \<and>
      idleTimer (manualTrigger w) = idleTimer w \<and>
      ghost (view (manualTrigger w)) = (if state w = Suggesting then None else ghost (view w)) \<and>
      abortController (manualTrigger w) =
        (if credentials_missing (settings w) then None else Some (next_id w)) \<and>
      pending (manualTrigger w) =
        map (\<lambda>q. if abortController w = Some (req_id q) then q\<lparr>req_aborted := True\<rparr> else q)
            (pending w)
        @ [\<lparr>req_id = next_id w,
            req_context = extractContext (view w) (contextChars (settings w))
                            (includeHeadingTrail (settings w)),
            req_fetched = \<not> credentials_missing (settings w),
            req_aborted = False\<rparr>]"
    by (simp add: manualTrigger_def Let_def predict_def complete_begin_def abort_pending
        cancelQueueTimer_timers extractContext_def)
  from a b c show ?thesis by blast
qed

text \<open>
  Refusals: a disabled plugin; a cursor inside a code fence in state \<open>queued\<close>, where the
  state and both timers stay; a cursor inside front matter. Effects: in state \<open>queued\<close> with
  the manual-only flag set, the delay timer 1 is cancelled, the idle timer 0 stays, request
  2 is fetched; with request 0 in flight, request 0 is aborted and request 1 issued; with a
  suggestion on display, the overlay is cleared.
\<close>

theorem manualTrigger_effect_witness:
  "manualTrigger disabled_world = disabled_world \<and>
   state fenced_queued_world = Queued \<and>
   state (manualTrigger fenced_queued_world) = Queued \<and>
   timers (manualTrigger fenced_queued_world) = [(0, IdleTimer), (1, QueueTimer)] \<and>
   pending (manualTrigger fenced_queued_world) = [] \<and>
   state (manualTrigger frontmatter_world) = Idle \<and>
   pending (manualTrigger frontmatter_world) = [] \<and>
   manualTriggerOnly (settings queued_manual_only_world) \<and>
   state queued_manual_only_world = Queued \<and>
   state (manualTrigger queued_manual_only_world) = Predicting \<and>
   queueTimer (manualTrigger queued_manual_only_world) = None \<and>
   timers (manualTrigger queued_manual_only_world) = [(0, IdleTimer)] \<and>
   map (\<lambda>q. (req_id q, req_fetched q)) (pending (manualTrigger queued_manual_only_world))
     = [(2, True)] \<and>
   map (\<lambda>q. (req_id q, req_aborted q)) (pending (manualTrigger predicting_world))
     = [(0, True), (1, False)] \<and>
   ghost (view shown_world) = Some (''think'', 5) \<and>
   ghost (view (manualTrigger shown_world)) = None"
proof -
  have d: "state disabled_world = Disabled"
    by (simp add: disabled_world_def eval_defs)
  have f: "state fenced_queued_world = Queued"
    "isInCodeBlock (doc (view fenced_queued_world)) (sel_head (view fenced_queued_world))"
    "timers fenced_queued_world = [(0, IdleTimer), (1, QueueTimer)]"
    "pending fenced_queued_world = []"
    by (simp_all add: fenced_queued_world_def eval_defs)
  have m: "state frontmatter_world = Idle"
    "isInFrontmatter (doc (view frontmatter_world)) (sel_head (view frontmatter_world))"
    "pending frontmatter_world = []"
    by (simp_all add: frontmatter_world_def eval_defs)
  have q: "state queued_manual_only_world = Queued"
    "manualTriggerOnly (settings queued_manual_only_world)"
    "\<not> isInCodeBlock (doc (view queued_manual_only_world))
         (sel_head (view queued_manual_only_world))"
    "\<not> isInFrontmatter (doc (view queued_manual_only_world))
         (sel_head (view queued_manual_only_world))"
    "queueTimer queued_manual_only_world = Some 1"
    "timers queued_manual_only_world = [(0, IdleTimer), (1, QueueTimer)]"
    "pending queued_manual_only_world = []"
    "next_id queued_manual_only_world = 2"
    "\<not> credentials_missing (settings queued_manual_only_world)"
    by (simp_all add: queued_manual_only_world_def eval_defs)
  have p: "state predicting_world = Predicting"
    "\<not> isInCodeBlock (doc (view predicting_world)) (sel_head (view predicting_world))"
    "\<not> isInFrontmatter (doc (view predicting_world)) (sel_head (view predicting_world))"
    "abortController predicting_world = Some 0"
    "map (\<lambda>q. (req_id q, req_aborted q)) (pending predicting_world) = [(0, False)]"
    "map req_id (pending predicting_world) = [0]"
    "next_id predicting_world = 1"
    by (simp_all add: predicting_world_def eval_defs)
  have s: "state shown_world = Suggesting"
    "\<not> isInCodeBlock (doc (view shown_world)) (sel_head (view shown_world))"
    "\<not> isInFrontmatter (doc (view shown_world)) (sel_head (view shown_world))"
    "ghost (view shown_world) = Some (''think'', 5)"
    by (simp_all add: shown_world_def shown_events_def eval_defs)
  have 1: "manualTrigger disabled_world = disabled_world"
    using manualTrigger_effect [of disabled_world] d by simp
  have 2: "manualTrigger fenced_queued_world = fenced_queued_world\<lparr>currentView := True\<rparr>"
    using manualTrigger_effect [of fenced_queued_world] f by simp
  have 3: "manualTrigger frontmatter_world = frontmatter_world\<lparr>currentView := True\<rparr>"
    using manualTrigger_effect [of frontmatter_world] m by simp
  have 4: "state (manualTrigger queued_manual_only_world) = Predicting \<and>
           queueTimer (manualTrigger queued_manual_only_world) = None \<and>
           timers (manualTrigger queued_manual_only_world) = [(0, IdleTimer)] \<and>
           map (\<lambda>q. (req_id q, req_fetched q)) (pending (manualTrigger queued_manual_only_world))
             = [(2, True)]"
    using manualTrigger_effect [of queued_manual_only_world] q by simp
  have 5: "map (\<lambda>q. (req_id q, req_aborted q)) (pending (manualTrigger predicting_world))
             = [(0, True), (1, False)]"
  proof -
    obtain r where r: "pending predicting_world = [r]" "req_id r = 0" "\<not> req_aborted r"
      using p(5) by (cases "pending predicting_world") auto
    with manualTrigger_effect [of predicting_world] p show ?thesis by simp
  qed
  have 6: "ghost (view (manualTrigger shown_world)) = None"
    using manualTrigger_effect [of shown_world] s by simp
  from 1 2 3 4 5 6 f m q s show ?thesis by simp
qed

section \<open>Cursor moves\<close>

text \<open>
  C5, as the claim states it, fails: in state \<open>queued\<close> a pure cursor move leaves the state
  \<open>queued\<close> and the delay timer armed.
\<close>

theorem cursor_move_keeps_queue_counterexample:
  "state queued_world = Queued \<and>
   queueTimer queued_world = Some 1 \<and>
   state (step queued_world (Select 2)) = Queued \<and>
   queueTimer (step queued_world (Select 2)) = Some 1 \<and>
   timers (step queued_world (Select 2)) = [(0, IdleTimer), (1, QueueTimer)]"
  by (simp add: queued_world_def eval_defs)

text \<open>
  C5, amended. A pure cursor move starts nothing and cancels nothing: the timers, the
  pending requests and the provider's controller are as before. In every state but
  \<open>suggesting\<close> the state is unchanged. In state \<open>suggesting\<close>, with the plugin enabled and
  not manual-only, the state becomes \<open>idle\<close> and the overlay is gone after the next animation
  frame at the latest; whenever the cursor leaves the overlay's anchor the overlay is
  cleared at once.
\<close>

theorem cursor_move_effect:
  "timers (step w (Select h)) = timers w \<and>
   queueTimer (step w (Select h)) = queueTimer w \<and>
   idleTimer (step w (Select h)) = idleTimer w \<and>
   pending (step w (Select h)) = pending w \<and>
   abortController (step w (Select h)) = abortController w \<and>
   (state w \<noteq> Suggesting \<longrightarrow> state (step w (Select h)) = state w) \<and>
   (state w = Suggesting \<and> enabled (settings w) \<and> \<not> manualTriggerOnly (settings w) \<longrightarrow>
      state (step w (Select h)) = Idle \<and>
      ghost (view (step (step w (Select h)) AnimationFrame)) = None) \<and>
   (\<forall>t p. ghost (view w) = Some (t, p) \<and> h \<noteq> p \<longrightarrow> ghost (view (step w (Select h))) = None)"
  by (auto simp: dispatch_def plugin_update_def Let_def select_transaction_def dismiss_def
      ghostTextState_update_def animation_frame_def setState_def)

text \<open>
  The scenario of the specification: a suggestion shown at offset 42, the cursor moved to
  offset 10 without editing. The overlay clears, the state becomes \<open>idle\<close>, no timer is armed
  and no request is pending.
\<close>

theorem cursor_move_effect_witness:
  "state shown_at_42 = Suggesting \<and>
   ghost (view shown_at_42) = Some (''think'', 42) \<and>
   state (step shown_at_42 (Select 10)) = Idle \<and>
   ghost (view (step shown_at_42 (Select 10))) = None \<and>
   timers (step shown_at_42 (Select 10)) = [] \<and>
   pending (step shown_at_42 (Select 10)) = []"
proof -
  have s: "state shown_at_42 = Suggesting"
    and g: "ghost (view shown_at_42) = Some (''think'', 42)"
    and e: "enabled (settings shown_at_42)" "\<not> manualTriggerOnly (settings shown_at_42)"
    and t: "timers shown_at_42 = []" "pending shown_at_42 = []"
    by (simp_all add: shown_at_42_def shown_events_def eval_defs)
  from cursor_move_effect [of shown_at_42 10] s g e t show ?thesis by simp
qed

section \<open>Resolution of a request\<close>

text \<open>
  C3, as the claim states it, fails: a request that carries text and whose captured offset
  (5) differs from the live offset (6) is answered while the engine is in state \<open>queued\<close>;
  the state does not become \<open>idle\<close>.
\<close>

theorem stale_text_keeps_queued_counterexample:
  "state stale_queued_world = Queued \<and>
   sel_head (view stale_queued_world) = 6 \<and>
   map (\<lambda>q. (req_id q, cursorPosition (req_context q), req_aborted q)) (pending stale_queued_world)
     = [(1, 5, False)] \<and>
   state (resolve stale_queued_world 1 (HttpOk (Content ''think''))) \<noteq> Idle"
  by (simp add: stale_queued_world_def eval_defs)

text \<open>
  C3, amended. When a request is answered and its captured cursor offset differs from the
  live one, no overlay is rendered (the overlay field is left as it was); the state becomes
  \<open>idle\<close> if the engine is still in \<open>predicting\<close>, and is left unchanged otherwise.
\<close>

theorem resolve_cursor_moved:
  assumes "filter (\<lambda>q. req_id q = rid) (pending w) = r # rs"
    and "cursorPosition (req_context r) \<noteq> sel_head (view w)"
  shows "ghost (view (resolve w rid outcome)) = ghost (view w) \<and>
         state (resolve w rid outcome) = (if state w = Predicting then Idle else state w)"
proof -
  obtain x where x: "complete_fetched (settings w) (if req_aborted r then FetchRejected AbortError else outcome) = Inr x"
    using complete_fetched_total by blast
  show ?thesis
    using assms x
    by (auto simp: resolve_def Let_def predict_resume_def split: option.splits)
qed

text \<open>
  A request issued at offset 5, the cursor moved to offset 2 while it is in flight, then
  the answer arrives with text: the state becomes \<open>idle\<close> and nothing is shown.
\<close>

theorem resolve_cursor_moved_witness:
  "state moved_world = Predicting \<and>
   state (resolve moved_world 0 (HttpOk (Content ''think''))) = Idle \<and>
   ghost (view (resolve moved_world 0 (HttpOk (Content ''think'')))) = None"
proof -
  have p: "pending moved_world =
      [\<lparr>req_id = 0,
        req_context = \<lparr>prefix = ''Hello'', suffix = [], headingTrail = [], cursorPosition = 5\<rparr>,
        req_fetched = True, req_aborted = False\<rparr>]"
    by (simp add: moved_world_def eval_defs)
  have f: "filter (\<lambda>q. req_id q = 0) (pending moved_world) = hd (pending moved_world) # []"
    by (simp add: p)
  have h: "sel_head (view moved_world) = 2"
    by (simp add: moved_world_def eval_defs)
  have c: "cursorPosition (req_context (hd (pending moved_world))) \<noteq> sel_head (view moved_world)"
    by (simp add: p h)
  have s: "state moved_world = Predicting" and g: "ghost (view moved_world) = None"
    by (simp_all add: moved_world_def eval_defs)
  from resolve_cursor_moved [OF f c, of "HttpOk (Content ''think'')"] s g
  show ?thesis by simp
qed

text \<open>
  C2. A second manual trigger supersedes the request in flight: request 0 is aborted,
  request 1 is issued, the state is \<open>predicting\<close>. When the aborted request 0 settles, the
  state becomes \<open>idle\<close> and the provider loses the controller of request 1; when request 1
  then answers with text, the text is discarded and nothing is shown. If instead a third
  manual trigger issues request 2 first, the answer of request 1 is shown while the engine
  is predicting for request 2.
\<close>

theorem stale_resolution_changes_state:
  "state superseded_world = Predicting \<and>
   map (\<lambda>q. (req_id q, req_aborted q)) (pending superseded_world) = [(0, True), (1, False)] \<and>
   abortController superseded_world = Some 1 \<and>
   state (step superseded_world (Resolve 0 (FetchRejected AbortError))) = Idle \<and>
   abortController (step superseded_world (Resolve 0 (FetchRejected AbortError))) = None \<and>
   state (run superseded_world
            [Resolve 0 (FetchRejected AbortError), Resolve 1 (HttpOk (Content ''think''))]) = Idle \<and>
   ghost (view (run superseded_world
            [Resolve 0 (FetchRejected AbortError), Resolve 1 (HttpOk (Content ''think''))])) = None \<and>
   map req_id (pending (run superseded_world
            [Resolve 0 (FetchRejected AbortError), ManualTriggerCmd])) = [1, 2] \<and>
   ghost (view (run superseded_world
            [Resolve 0 (FetchRejected AbortError), ManualTriggerCmd,
             Resolve 1 (HttpOk (Content ''stale''))])) = Some (''stale'', 5)"
  by (simp add: superseded_world_def eval_defs)

section \<open>Overlay and state\<close>

text \<open>
  C1, as the claim states it, fails: after the command "dismiss suggestion" the state is
  \<open>idle\<close> while the overlay is still present, until the next animation frame.
\<close>

theorem overlay_without_suggesting_counterexample:
  "ghost (view (run (init_world configured ''Hello'' 5) (shown_events @ [DismissCmd]))) = Some (''think'', 5) \<and>
   state (run (init_world configured ''Hello'' 5) (shown_events @ [DismissCmd])) = Idle"
  by (simp add: shown_events_def eval_defs)

text \<open>
  C1, amended. At every point of every execution from a freshly loaded plugin: an overlay
  that is present goes with state \<open>suggesting\<close> or with a deferred clear that has not run
  yet. And in executions where every edit and cursor move finds the plugin enabled and not
  manual-only, and no request is answered while a deferred clear is waiting, state
  \<open>suggesting\<close> implies that the overlay is present.
\<close>

theorem overlay_phase_invariant:
  "(ghost (view (run (init_world s d h) es)) \<noteq> None \<longrightarrow>
      state (run (init_world s d h) es) = Suggesting \<or> 0 < frames (run (init_world s d h) es)) \<and>
   (orderly (init_world s d h) es \<longrightarrow> state (run (init_world s d h) es) = Suggesting \<longrightarrow>
      ghost (view (run (init_world s d h) es)) \<noteq> None)"
  using run_accounted [OF init_invariants(1), of s d h es]
    run_shown [OF init_invariants(2), of s d h es]
  by (auto simp: overlay_accounted_def suggesting_shown_def)

text \<open>
  A manual trigger answered with text is such an execution; it ends in \<open>suggesting\<close> with
  the overlay present.
\<close>

theorem overlay_phase_invariant_witness:
  "orderly (init_world configured ''Hello'' 5) shown_events \<and>
   state (run (init_world configured ''Hello'' 5) shown_events) = Suggesting \<and>
   ghost (view (run (init_world configured ''Hello'' 5) shown_events)) \<noteq> None"
proof -
  have o: "orderly (init_world configured ''Hello'' 5) shown_events"
    by (simp add: shown_events_def eval_defs)
  have s: "state (run (init_world configured ''Hello'' 5) shown_events) = Suggesting"
    by (simp add: shown_events_def eval_defs)
  from o s overlay_phase_invariant [of configured "''Hello''" 5 shown_events]
  show ?thesis by blast
qed

end
